theory Spec2Isabelle
  imports Main "HOL-Library.AList" "HOL-Library.Sublist"
begin

section \<open>Values, exceptions and sessions\<close>

text \<open>
  Python values that travel through keyword arguments, the exceptions the modules raise,
  and the connection object. A method that talks to the device takes the session and
  returns either the exception it raised or its result with the session afterwards.
\<close>

datatype pyval = PNone | PBool bool | PInt int | PStr string

datatype exn =
    ValueError string
  | FileNotFoundError
  | CliTableError
  | IndexError
  | AssertionError
  | OtherException string

type_synonym kwargs = "string \<rightharpoonup> pyval"

record 'd session =
  global_cmd_verify :: "bool option"
  remote :: 'd

type_synonym ('a, 'd) io = "'d session \<Rightarrow> exn + ('a \<times> 'd session)"

section \<open>utilities.py: select_cmd_verify\<close>

text \<open>
  \<^verbatim>\<open>
  def wrapper_decorator(self, *args, **kwargs):
      if self.global_cmd_verify is not None:
          kwargs["cmd_verify"] = self.global_cmd_verify
      return func(self, *args, **kwargs)
  \<close>
  The wrapped operation is a parameter: it receives the session, the positional
  arguments and the keyword dictionary.
\<close>

definition select_cmd_verify ::
  "('d session \<Rightarrow> pyval list \<Rightarrow> kwargs \<Rightarrow> 'r) \<Rightarrow> 'd session \<Rightarrow> pyval list \<Rightarrow> kwargs \<Rightarrow> 'r" where
  "select_cmd_verify func self args kwargs =
     (case global_cmd_verify self of
        Some g \<Rightarrow> func self args (kwargs(''cmd_verify'' \<mapsto> PBool g))
      | None \<Rightarrow> func self args kwargs)"

text \<open>The probe of the test suite: it returns what the decorator handed to it.\<close>

definition bogus_func :: "'d session \<Rightarrow> pyval list \<Rightarrow> kwargs \<Rightarrow> 'd session \<times> pyval list \<times> kwargs" where
  "bogus_func obj args kwargs = (obj, args, kwargs)"

section \<open>utilities.py: SHOW_RUN_MAPPER\<close>

text \<open>
  A dictionary keeps insertion order and the loop walks it in that order, so the table is
  an association list; \<open>d[k] = v\<close> is \<open>AList.update\<close>.
\<close>

definition SHOW_RUN_MAPPER_base :: "(string \<times> string) list" where
  "SHOW_RUN_MAPPER_base =
    [(''juniper'', ''show configuration''),
     (''juniper_junos'', ''show configuration''),
     (''extreme'', ''show configuration''),
     (''extreme_ers'', ''show running-config''),
     (''extreme_exos'', ''show configuration''),
     (''extreme_netiron'', ''show running-config''),
     (''extreme_nos'', ''show running-config''),
     (''extreme_slx'', ''show running-config''),
     (''extreme_vdx'', ''show running-config''),
     (''extreme_vsp'', ''show running-config''),
     (''extreme_wing'', ''show running-config''),
     (''hp_comware'', ''display current-configuration''),
     (''huawei'', ''display current-configuration''),
     (''fortinet'', ''show full-configuration''),
     (''checkpoint'', ''show configuration''),
     (''cisco_wlc'', ''show run-config''),
     (''enterasys'', ''show running-config''),
     (''dell_force10'', ''show running-config''),
     (''avaya_vsp'', ''show running-config''),
     (''avaya_ers'', ''show running-config''),
     (''brocade_vdx'', ''show running-config''),
     (''brocade_nos'', ''show running-config''),
     (''brocade_fastiron'', ''show running-config''),
     (''brocade_netiron'', ''show running-config''),
     (''alcatel_aos'', ''show configuration snapshot'')]"

text \<open>
  \<^verbatim>\<open>
  new_dict = {}
  for k, v in SHOW_RUN_MAPPER.items():
      new_key = k + "_ssh"
      new_dict[k] = v
      new_dict[new_key] = v
  \<close>
\<close>

fun expand_ssh :: "(string \<times> string) list \<Rightarrow> (string \<times> string) list \<Rightarrow> (string \<times> string) list" where
  "expand_ssh new_dict [] = new_dict"
| "expand_ssh new_dict ((k, v) # items) =
     expand_ssh (AList.update (k @ ''_ssh'') v (AList.update k v new_dict)) items"

definition SHOW_RUN_MAPPER :: "(string \<times> string) list" where
  "SHOW_RUN_MAPPER = expand_ssh [] SHOW_RUN_MAPPER_base"

section \<open>sixwind_os.py: a profile without an enable tier\<close>

text \<open>
  The three methods take any positional and keyword arguments, touch nothing and return
  a constant.
\<close>

definition SixwindOSBase_check_enable_mode :: "pyval list \<Rightarrow> kwargs \<Rightarrow> (bool, 'd) io" where
  "SixwindOSBase_check_enable_mode args kwargs self = Inr (True, self)"

definition SixwindOSBase_enable :: "pyval list \<Rightarrow> kwargs \<Rightarrow> (string, 'd) io" where
  "SixwindOSBase_enable args kwargs self = Inr ('''', self)"

definition SixwindOSBase_exit_enable_mode :: "pyval list \<Rightarrow> kwargs \<Rightarrow> (string, 'd) io" where
  "SixwindOSBase_exit_enable_mode args kwargs self = Inr ('''', self)"

section \<open>mellanox_mlnxos_ssh.py\<close>

text \<open>
  MellanoxMlnxosSSH inherits from CiscoSSHConnection, whose module is not part of the
  sources at hand. The inherited methods that the Mellanox methods call are parameters:
  a record of operations on the session, each of which may raise.
\<close>

record 'd base_connection =
  base_check_enable_mode :: "(bool, 'd) io"
  base_check_config_mode :: "string \<Rightarrow> string \<Rightarrow> (bool, 'd) io"
  base_write_channel :: "string \<Rightarrow> (unit, 'd) io"
  base_normalize_cmd :: "string \<Rightarrow> string"
  base_read_until_prompt_or_pattern :: "string \<Rightarrow> int \<Rightarrow> (string, 'd) io"
  base_read_until_pattern :: "string \<Rightarrow> (string, 'd) io"

text \<open>
  \<^verbatim>\<open>
  def enable(self, cmd="enable", pattern="#", re_flags=re.IGNORECASE):
      output = ""
      if not self.check_enable_mode():
          self.write_channel(self.normalize_cmd(cmd))
          output += self.read_until_prompt_or_pattern(pattern=pattern, re_flags=re_flags)
          if not self.check_enable_mode():
              raise ValueError("Failed to enter enable mode.")
      return output
  \<close>
\<close>

definition MellanoxMlnxosSSH_enable ::
  "'d base_connection \<Rightarrow> string \<Rightarrow> string \<Rightarrow> int \<Rightarrow> (string, 'd) io" where
  "MellanoxMlnxosSSH_enable b cmd pattern re_flags self =
     (case base_check_enable_mode b self of
        Inl e \<Rightarrow> Inl e
      | Inr (enabled, s1) \<Rightarrow>
          if \<not> enabled then
            (case base_write_channel b (base_normalize_cmd b cmd) s1 of
               Inl e \<Rightarrow> Inl e
             | Inr (u, s2) \<Rightarrow>
                 (case base_read_until_prompt_or_pattern b pattern re_flags s2 of
                    Inl e \<Rightarrow> Inl e
                  | Inr (out, s3) \<Rightarrow>
                      (case base_check_enable_mode b s3 of
                         Inl e \<Rightarrow> Inl e
                       | Inr (enabled', s4) \<Rightarrow>
                           if \<not> enabled' then Inl (ValueError ''Failed to enter enable mode.'')
                           else Inr ('''' @ out, s4))))
          else Inr ('''', s1))"

definition MellanoxMlnxosSSH_check_config_mode ::
  "'d base_connection \<Rightarrow> string \<Rightarrow> string \<Rightarrow> (bool, 'd) io" where
  "MellanoxMlnxosSSH_check_config_mode b check_string pattern self =
     base_check_config_mode b check_string pattern self"

text \<open>
  \<^verbatim>\<open>
  output = ""
  check_count = 12
  while check_count >= 0:
      if self.check_config_mode():
          self.write_channel(self.normalize_cmd(exit_config))
          output += self.read_until_pattern(pattern=pattern)
      else:
          break
      check_count -= 1
  if self.check_config_mode():
      raise ValueError("Failed to exit configuration mode")
  return output
  \<close>
  The loop is the recursive function \<open>exit_config_loop\<close> on the counter; it ends since the
  counter decreases and the loop stops below zero.
\<close>

function exit_config_loop ::
  "'d base_connection \<Rightarrow> string \<Rightarrow> string \<Rightarrow> int \<Rightarrow> string \<Rightarrow> (string, 'd) io" where
  "exit_config_loop b exit_config pattern check_count output self =
     (if check_count \<ge> 0 then
        (case MellanoxMlnxosSSH_check_config_mode b ''(config'' ''#'' self of
           Inl e \<Rightarrow> Inl e
         | Inr (in_config, s1) \<Rightarrow>
             if in_config then
               (case base_write_channel b (base_normalize_cmd b exit_config) s1 of
                  Inl e \<Rightarrow> Inl e
                | Inr (u, s2) \<Rightarrow>
                    (case base_read_until_pattern b pattern s2 of
                       Inl e \<Rightarrow> Inl e
                     | Inr (out, s3) \<Rightarrow>
                         exit_config_loop b exit_config pattern (check_count - 1) (output @ out) s3))
             else Inr (output, s1))
      else Inr (output, self))"
  by pat_completeness auto
termination
  by (relation "measure (\<lambda>(b, exit_config, pattern, check_count, output, self). nat (check_count + 1))") auto

definition MellanoxMlnxosSSH_exit_config_mode ::
  "'d base_connection \<Rightarrow> string \<Rightarrow> string \<Rightarrow> (string, 'd) io" where
  "MellanoxMlnxosSSH_exit_config_mode b exit_config pattern self =
     (case exit_config_loop b exit_config pattern 12 '''' self of
        Inl e \<Rightarrow> Inl e
      | Inr (output, s1) \<Rightarrow>
          (case MellanoxMlnxosSSH_check_config_mode b ''(config'' ''#'' s1 of
             Inl e \<Rightarrow> Inl e
           | Inr (in_config, s2) \<Rightarrow>
               if in_config then Inl (ValueError ''Failed to exit configuration mode'')
               else Inr (output, s2)))"

subsection \<open>A simulated device\<close>

text \<open>
  Modelled from the spec: the inherited operations of the base connection, for a simulated
  device. The device is \<open>sim_depth\<close> configuration contexts deep and each "exit" it
  receives leaves one of them. A mode check sends nothing and looks for the check string
  in the current prompt; a write is recorded in \<open>sim_sent\<close> and the device reacts to
  it; a read returns the prompt; normalize_cmd strips trailing white space and appends
  the newline.
\<close>

record sim_device =
  sim_depth :: nat
  sim_enabled :: bool
  sim_accepts_enable :: bool
  sim_sent :: "string list"

definition sim_prompt :: "sim_device \<Rightarrow> string" where
  "sim_prompt d =
     (if sim_depth d > 0 then ''switch (config) # ''
      else if sim_enabled d then ''switch # '' else ''switch > '')"

fun contains :: "string \<Rightarrow> string \<Rightarrow> bool" where
  "contains sub [] = (sub = [])"
| "contains sub (c # cs) = (prefix sub (c # cs) \<or> contains sub cs)"

definition sim_react :: "string \<Rightarrow> sim_device \<Rightarrow> sim_device" where
  "sim_react cmd d =
     (if cmd = ''exit'' @ [CHR 0x0A] \<and> sim_depth d > 0 then d\<lparr>sim_depth := sim_depth d - 1\<rparr>
      else if cmd = ''enable'' @ [CHR 0x0A] \<and> sim_accepts_enable d then d\<lparr>sim_enabled := True\<rparr>
      else d)"

definition sim_connection :: "sim_device base_connection" where
  "sim_connection =
     \<lparr>base_check_enable_mode = (\<lambda>self. Inr (contains ''#'' (sim_prompt (remote self)), self)),
      base_check_config_mode =
        (\<lambda>check_string pattern self. Inr (contains check_string (sim_prompt (remote self)), self)),
      base_write_channel =
        (\<lambda>out_data self.
           Inr ((), self\<lparr>remote := (sim_react out_data (remote self))
                               \<lparr>sim_sent := sim_sent (remote self) @ [out_data]\<rparr>\<rparr>)),
      base_normalize_cmd = (\<lambda>command. rev (dropWhile (\<lambda>c. c \<in> set '' '' \<or> c = CHR 0x0A \<or> c = CHR 0x0D \<or> c = CHR 0x09) (rev command)) @ [CHR 0x0A]),
      base_read_until_prompt_or_pattern = (\<lambda>pattern re_flags self. Inr (sim_prompt (remote self), self)),
      base_read_until_pattern = (\<lambda>pattern self. Inr (sim_prompt (remote self), self))\<rparr>"

definition sim_session :: "nat \<Rightarrow> sim_device session" where
  "sim_session k =
     \<lparr>global_cmd_verify = None,
      remote = \<lparr>sim_depth = k, sim_enabled = True, sim_accepts_enable = True, sim_sent = []\<rparr>\<rparr>"

text \<open>The session after the device has received \<open>m\<close> exit commands.\<close>

definition sim_after :: "nat \<Rightarrow> sim_device session \<Rightarrow> sim_device session" where
  "sim_after m self =
     self\<lparr>remote := (remote self)
        \<lparr>sim_depth := sim_depth (remote self) - m,
         sim_sent := sim_sent (remote self) @ replicate m (''exit'' @ [CHR 0x0A])\<rparr>\<rparr>"

definition sim_unprivileged :: "bool \<Rightarrow> sim_device session" where
  "sim_unprivileged accepts =
     \<lparr>global_cmd_verify = None,
      remote = \<lparr>sim_depth = 0, sim_enabled = False, sim_accepts_enable = accepts, sim_sent = []\<rparr>\<rparr>"

section \<open>utilities.py: the structured-data functions\<close>


















subsection \<open>Concrete surroundings for the structured-data functions\<close>







section \<open>utilities.py: strip_ansi_escape_codes\<close>

subsection \<open>The regular expressions of the module\<close>

text \<open>
  The patterns of strip_ansi_escape_codes are sequences of: a literal character, \<open>\d\<close>,
  \<open>\d+\<close>, a character class, an alternation of literal strings, and a capturing group
  around one of these. Strings are lists of 8-bit characters and \<open>\d\<close> is an ASCII
  digit.
\<close>

datatype tok = Lit char | Digit | Digits | Cls "char list" | Alt "string list" | Grp tok

definition is_digit :: "char \<Rightarrow> bool" where
  "is_digit c = (c \<in> set ''0123456789'')"

text \<open>
  Matching is backtracking search, as in Python's \<open>re\<close>: \<open>step t s\<close> lists the ways
  token \<open>t\<close> can match at the start of \<open>s\<close>, most preferred first (\<open>\d+\<close> is greedy,
  an alternation tries its branches from the left), each as the groups captured and the
  input left. \<open>matches\<close> does the same for a whole pattern; the first entry is the match
  the engine reports.
\<close>

fun step :: "tok \<Rightarrow> string \<Rightarrow> (string list \<times> string) list" where
  "step (Lit c) s = (case s of [] \<Rightarrow> [] | x # xs \<Rightarrow> if x = c then [([], xs)] else [])"
| "step Digit s = (case s of [] \<Rightarrow> [] | x # xs \<Rightarrow> if is_digit x then [([], xs)] else [])"
| "step Digits s = map (\<lambda>n. ([], drop n s)) (rev [1..<Suc (length (takeWhile is_digit s))])"
| "step (Cls cs) s = (case s of [] \<Rightarrow> [] | x # xs \<Rightarrow> if x \<in> set cs then [([], xs)] else [])"
| "step (Alt alts) s =
     concat (map (\<lambda>a. if prefix a s then [([], drop (length a) s)] else []) alts)"
| "step (Grp t) s = map (\<lambda>(g, r). (take (length s - length r) s # g, r)) (step t s)"

fun matches :: "tok list \<Rightarrow> string \<Rightarrow> (string list \<times> string) list" where
  "matches [] s = [([], s)]"
| "matches (t # ts) s =
     concat (map (\<lambda>(g, r). map (\<lambda>(g', r'). (g @ g', r')) (matches ts r)) (step t s))"

text \<open>\<open>pattern.match\<close> at the start of the string: the groups and the rest of the input.\<close>

definition re_match :: "tok list \<Rightarrow> string \<Rightarrow> (string list \<times> string) option" where
  "re_match p s = (case matches p s of [] \<Rightarrow> None | m # ms \<Rightarrow> Some m)"

text \<open>\<open>re.search\<close>: the groups of the leftmost match, None when there is none.\<close>

fun re_search :: "tok list \<Rightarrow> string \<Rightarrow> string list option" where
  "re_search p [] = map_option fst (re_match p [])"
| "re_search p (c # cs) =
     (case re_match p (c # cs) of Some (g, r) \<Rightarrow> Some g | None \<Rightarrow> re_search p cs)"

text \<open>
  \<open>re.sub\<close> with a replacement that has no backslash, which is then taken
  literally (the default \<open>return_str\<close>, a line feed, is such a replacement): every
  leftmost non-overlapping match is replaced. Each pattern of this module starts
  with the escape character, so a match is never empty; for an empty match the
  replacement is inserted and the next character copied.
\<close>

function re_sub :: "tok list \<Rightarrow> string \<Rightarrow> string \<Rightarrow> string" where
  "re_sub p repl s =
     (case re_match p s of
        Some (g, r) \<Rightarrow>
          if length r < length s then repl @ re_sub p repl r
          else repl @ (case s of [] \<Rightarrow> [] | c # cs \<Rightarrow> c # re_sub p repl cs)
      | None \<Rightarrow> (case s of [] \<Rightarrow> [] | c # cs \<Rightarrow> c # re_sub p repl cs))"
  by pat_completeness auto
termination
  by (relation "measure (\<lambda>(p, repl, s). length s)") auto

subsection \<open>The catalogue of control sequences\<close>

definition ESC :: char where
  "ESC = CHR 0x1B"

definition lits :: "string \<Rightarrow> tok list" where
  "lits s = map Lit s"

definition code_position_cursor :: "tok list" where
  "code_position_cursor = Lit ESC # lits ''['' @ [Digits] @ lits '';'' @ [Digits] @ lits ''H''"

definition code_show_cursor :: "tok list" where
  "code_show_cursor = Lit ESC # lits ''[?25h''"

definition code_next_line :: "tok list" where
  "code_next_line = Lit ESC # lits ''E''"

definition code_erase_line_end :: "tok list" where
  "code_erase_line_end = Lit ESC # lits ''[K''"

definition code_erase_line :: "tok list" where
  "code_erase_line = Lit ESC # lits ''[2K''"

definition code_erase_start_line :: "tok list" where
  "code_erase_start_line = Lit ESC # lits ''[K''"

definition code_enable_scroll :: "tok list" where
  "code_enable_scroll = Lit ESC # lits ''['' @ [Digits] @ lits '';'' @ [Digits] @ lits ''r''"

definition code_insert_line :: "tok list" where
  "code_insert_line = Lit ESC # lits ''['' @ [Grp Digits] @ lits ''L''"

definition code_carriage_return :: "tok list" where
  "code_carriage_return = Lit ESC # lits ''[1M''"

definition code_disable_line_wrapping :: "tok list" where
  "code_disable_line_wrapping = Lit ESC # lits ''[?7l''"

definition code_reset_mode_screen_options :: "tok list" where
  "code_reset_mode_screen_options = Lit ESC # lits ''[?'' @ [Digits] @ lits ''l''"

definition code_reset_graphics_mode :: "tok list" where
  "code_reset_graphics_mode = Lit ESC # lits ''[00m''"

definition code_erase_display :: "tok list" where
  "code_erase_display = Lit ESC # lits ''[2J''"

definition code_erase_display_0 :: "tok list" where
  "code_erase_display_0 = Lit ESC # lits ''[J''"

definition code_graphics_mode :: "tok list" where
  "code_graphics_mode =
     Lit ESC # lits ''['' @ [Digit, Digit] @ lits '';'' @ [Digit, Digit] @ lits ''m''"

definition code_graphics_mode2 :: "tok list" where
  "code_graphics_mode2 =
     Lit ESC # lits ''['' @ [Digit, Digit] @ lits '';'' @ [Digit, Digit] @ lits '';''
       @ [Digit, Digit] @ lits ''m''"

definition code_graphics_mode3 :: "tok list" where
  "code_graphics_mode3 = Lit ESC # lits ''['' @ [Grp (Alt [''3'', ''4'']), Digit] @ lits ''m''"

definition code_graphics_mode4 :: "tok list" where
  "code_graphics_mode4 =
     Lit ESC # lits ''['' @ [Grp (Alt [''9'', ''10'']), Cls ''01234567''] @ lits ''m''"

definition code_get_cursor_position :: "tok list" where
  "code_get_cursor_position = Lit ESC # lits ''[6n''"

definition code_cursor_position :: "tok list" where
  "code_cursor_position = Lit ESC # lits ''[m''"

definition code_attrs_off :: "tok list" where
  "code_attrs_off = Lit ESC # lits ''[0m''"

definition code_reverse :: "tok list" where
  "code_reverse = Lit ESC # lits ''[7m''"

definition code_cursor_left :: "tok list" where
  "code_cursor_left = Lit ESC # lits ''['' @ [Digits] @ lits ''D''"

definition code_set :: "tok list list" where
  "code_set =
     [code_position_cursor,
      code_show_cursor,
      code_erase_line,
      code_enable_scroll,
      code_erase_start_line,
      code_carriage_return,
      code_disable_line_wrapping,
      code_erase_line_end,
      code_reset_mode_screen_options,
      code_reset_graphics_mode,
      code_erase_display,
      code_graphics_mode,
      code_graphics_mode2,
      code_graphics_mode3,
      code_graphics_mode4,
      code_get_cursor_position,
      code_cursor_position,
      code_erase_display,
      code_erase_display_0,
      code_attrs_off,
      code_reverse,
      code_cursor_left]"

subsection \<open>The function\<close>

text \<open>\<open>int\<close> of a string of decimal digits, and \<open>count * return_str\<close>.\<close>

definition digit_val :: "char \<Rightarrow> nat" where
  "digit_val c = of_char c - 48"

definition int_of_digits :: "string \<Rightarrow> nat" where
  "int_of_digits ds = foldl (\<lambda>n c. 10 * n + digit_val c) 0 ds"

definition str_times :: "nat \<Rightarrow> string \<Rightarrow> string" where
  "str_times count s = concat (replicate count s)"

text \<open>
  \<^verbatim>\<open>
  output = string_buffer
  for ansi_esc_code in code_set:
      output = re.sub(ansi_esc_code, "", output)
  output = re.sub(code_next_line, return_str, output)
  insert_line_match = re.search(code_insert_line, output)
  if insert_line_match:
      count = int(insert_line_match.group(1))
      output = re.sub(code_insert_line, count * return_str, output)
  return output
  \<close>
  The pattern of \<open>code_insert_line\<close> has one group, so \<open>group(1)\<close> exists whenever the
  search succeeds.
\<close>

definition strip_codes :: "tok list list \<Rightarrow> string \<Rightarrow> string" where
  "strip_codes codes string_buffer = fold (\<lambda>ansi_esc_code output. re_sub ansi_esc_code [] output) codes string_buffer"

definition strip_ansi_escape_codes :: "string \<Rightarrow> string \<Rightarrow> string" where
  "strip_ansi_escape_codes string_buffer return_str =
     (let output = strip_codes code_set string_buffer;
          output = re_sub code_next_line return_str output
      in case re_search code_insert_line output of
           None \<Rightarrow> output
         | Some [] \<Rightarrow> output
         | Some (group1 # groups) \<Rightarrow>
             re_sub code_insert_line (str_times (int_of_digits group1) return_str) output)"

definition LF :: char where
  "LF = CHR 0x0A"

definition CR :: char where
  "CR = CHR 0x0D"

subsection \<open>Texts built from control sequences and plain text\<close>







definition catalogue :: "tok list list" where
  "catalogue = code_set @ [code_next_line, code_insert_line]"






text \<open>A text is free of control sequences when no pattern of the catalogue matches in it.\<close>

definition control_free :: "string \<Rightarrow> bool" where
  "control_free t = list_all (\<lambda>p. re_search p t = None) catalogue"

text \<open>
  Modelled from the spec: normalize_newlines, which is not among the sources. "Normalize
  all line terminators to a single newline convention": a carriage return followed by a
  line feed, and a carriage return alone, become one line feed.
\<close>

fun normalize_newlines :: "string \<Rightarrow> string" where
  "normalize_newlines [] = []"
| "normalize_newlines [c] = (if c = CR then [LF] else [c])"
| "normalize_newlines (c # d # cs) =
     (if c = CR \<and> d = LF then LF # normalize_newlines cs
      else if c = CR then LF # normalize_newlines (d # cs)
      else c # normalize_newlines (d # cs))"

subsection \<open>What a pattern matches\<close>



subsection \<open>The form of a control sequence and the effect of one substitution\<close>




subsection \<open>What becomes of each segment\<close>







section \<open>Properties of select_cmd_verify\<close>

text \<open>
  C1. When the session's global flag is set, the wrapped operation is called with
  \<open>cmd_verify\<close> equal to the flag, whatever the call passed for it; when the flag is
  None the operation is called with the caller's keyword arguments unchanged (so a
  missing \<open>cmd_verify\<close> stays missing and the operation's own default applies).
\<close>

theorem select_cmd_verify_precedence:
  "(global_cmd_verify self = Some g \<longrightarrow>
      select_cmd_verify func self args kwargs = func self args (kwargs(''cmd_verify'' \<mapsto> PBool g))
      \<and> (kwargs(''cmd_verify'' \<mapsto> PBool g)) ''cmd_verify'' = Some (PBool g))
   \<and> (global_cmd_verify self = None \<longrightarrow>
      select_cmd_verify func self args kwargs = func self args kwargs)"
  by (simp add: select_cmd_verify_def)

theorem select_cmd_verify_precedence_witness:
  "global_cmd_verify \<lparr>global_cmd_verify = Some False, remote = ()\<rparr> = Some False
   \<and> snd (snd (select_cmd_verify bogus_func \<lparr>global_cmd_verify = Some False, remote = ()\<rparr> []
         [''cmd_verify'' \<mapsto> PBool True])) ''cmd_verify'' = Some (PBool False)
   \<and> global_cmd_verify \<lparr>global_cmd_verify = None, remote = ()\<rparr> = None
   \<and> snd (snd (select_cmd_verify bogus_func \<lparr>global_cmd_verify = None, remote = ()\<rparr> []
         [''cmd_verify'' \<mapsto> PBool True])) ''cmd_verify'' = Some (PBool True)
   \<and> snd (snd (select_cmd_verify bogus_func \<lparr>global_cmd_verify = None, remote = ()\<rparr> []
         Map.empty)) ''cmd_verify'' = None"
  using select_cmd_verify_precedence
          [of "\<lparr>global_cmd_verify = Some False, remote = ()\<rparr>" False bogus_func "[]"
              "[''cmd_verify'' \<mapsto> PBool True]"]
        select_cmd_verify_precedence
          [of "\<lparr>global_cmd_verify = None, remote = ()\<rparr>" False bogus_func "[]"
              "[''cmd_verify'' \<mapsto> PBool True]"]
        select_cmd_verify_precedence
          [of "\<lparr>global_cmd_verify = None, remote = ()\<rparr>" False bogus_func "[]" Map.empty]
  by (simp add: bogus_func_def)

section \<open>Properties of SHOW_RUN_MAPPER\<close>

lemma expand_ssh_other:
  "k \<notin> fst ` set items \<Longrightarrow> k \<notin> (\<lambda>x. fst x @ ''_ssh'') ` set items \<Longrightarrow>
   map_of (expand_ssh d items) k = map_of d k"
  by (induction d items rule: expand_ssh.induct) (auto simp: update_conv')

lemma expand_ssh_closed:
  assumes "distinct (map fst items)"
    and "\<forall>k \<in> fst ` set items. \<forall>k' \<in> fst ` set items. k \<noteq> k' @ ''_ssh''"
    and "(k, v) \<in> set items"
  shows "map_of (expand_ssh d items) k = Some v
       \<and> map_of (expand_ssh d items) (k @ ''_ssh'') = Some v"
  using assms
proof (induction d items rule: expand_ssh.induct)
  case (1 d)
  then show ?case by simp
next
  case (2 d k0 v0 items)
  show ?case
  proof (cases "(k, v) \<in> set items")
    case True
    with 2 show ?thesis by auto
  next
    case False
    with "2.prems" have kv: "k = k0" "v = v0" by auto
    have a: "k \<notin> fst ` set items" using "2.prems"(1) by (auto simp: kv)
    have b: "k \<notin> (\<lambda>x. fst x @ ''_ssh'') ` set items"
      using "2.prems"(2) by (force simp: kv)
    have c: "k @ ''_ssh'' \<notin> fst ` set items"
      using "2.prems"(2) by (force simp: kv)
    have d: "k @ ''_ssh'' \<notin> (\<lambda>x. fst x @ ''_ssh'') ` set items"
      using a by auto
    show ?thesis
      using expand_ssh_other [OF a b] expand_ssh_other [OF c d] by (simp add: kv update_conv')
  qed
qed

lemma SHOW_RUN_MAPPER_base_distinct: "distinct (map fst SHOW_RUN_MAPPER_base)"
  by (simp add: SHOW_RUN_MAPPER_base_def)

lemma SHOW_RUN_MAPPER_base_no_ssh:
  "\<forall>k \<in> fst ` set SHOW_RUN_MAPPER_base. \<not> suffix ''_ssh'' k"
  by (simp add: SHOW_RUN_MAPPER_base_def suffix_Cons)

text \<open>
  C10. After the module's initialisation loop, every vendor key \<open>k\<close> of the base table
  and the key \<open>k + "_ssh"\<close> are both keys of SHOW_RUN_MAPPER, and both map to the
  command the base table gives for \<open>k\<close>.
\<close>

theorem SHOW_RUN_MAPPER_closure:
  "\<forall>(k, v) \<in> set SHOW_RUN_MAPPER_base.
      map_of SHOW_RUN_MAPPER k = Some v \<and> map_of SHOW_RUN_MAPPER (k @ ''_ssh'') = Some v"
proof -
  have "\<forall>k \<in> fst ` set SHOW_RUN_MAPPER_base. \<forall>k' \<in> fst ` set SHOW_RUN_MAPPER_base.
          k \<noteq> k' @ ''_ssh''"
    using SHOW_RUN_MAPPER_base_no_ssh by (metis suffixI)
  then show ?thesis
    using expand_ssh_closed [OF SHOW_RUN_MAPPER_base_distinct, of _ _ "[]"]
    by (auto simp: SHOW_RUN_MAPPER_def)
qed

theorem SHOW_RUN_MAPPER_closure_witness:
  "(''huawei'', ''display current-configuration'') \<in> set SHOW_RUN_MAPPER_base
   \<and> map_of SHOW_RUN_MAPPER ''huawei'' = Some ''display current-configuration''
   \<and> map_of SHOW_RUN_MAPPER ''huawei_ssh'' = Some ''display current-configuration''"
proof -
  have h: "(''huawei'', ''display current-configuration'') \<in> set SHOW_RUN_MAPPER_base"
    by (simp add: SHOW_RUN_MAPPER_base_def)
  show ?thesis
    using h SHOW_RUN_MAPPER_closure by fastforce
qed

section \<open>Properties of the profile without an enable tier\<close>

text \<open>
  C8. For the 6WIND profile, check_enable_mode returns True for all arguments, and enable
  and exit_enable_mode return the empty string for all arguments; none of them writes to
  the channel: the session is returned as it was received.
\<close>

theorem SixwindOSBase_no_enable_tier:
  "SixwindOSBase_check_enable_mode args kwargs self = Inr (True, self)
   \<and> SixwindOSBase_enable args kwargs self = Inr ('''', self)
   \<and> SixwindOSBase_exit_enable_mode args kwargs self = Inr ('''', self)"
  by (simp add: SixwindOSBase_check_enable_mode_def SixwindOSBase_enable_def
      SixwindOSBase_exit_enable_mode_def)

section \<open>Properties of the Mellanox mode transitions\<close>

declare exit_config_loop.simps [simp del]

lemma sim_in_config:
  "contains ''(config'' (sim_prompt d) = (sim_depth d > 0)"
  by (simp add: sim_prompt_def)

lemma sim_check_config_mode:
  "MellanoxMlnxosSSH_check_config_mode sim_connection ''(config'' ''#'' self =
     Inr (sim_depth (remote self) > 0, self)"
  by (simp add: MellanoxMlnxosSSH_check_config_mode_def sim_connection_def sim_in_config)

lemma sim_after_0: "sim_after 0 self = self"
  by (simp add: sim_after_def)

lemma sim_exit_step:
  "sim_depth (remote self) > 0 \<Longrightarrow>
   base_write_channel sim_connection (base_normalize_cmd sim_connection ''exit'') self =
     Inr ((), sim_after (Suc 0) self)"
  by (simp add: sim_connection_def sim_after_def sim_react_def)

lemma sim_after_Suc:
  "sim_after m (sim_after (Suc 0) self) = sim_after (Suc m) self"
  by (simp add: sim_after_def replicate_append_same)

lemma sim_read: "\<exists>out. base_read_until_pattern sim_connection p self = Inr (out, self)"
  by (simp add: sim_connection_def)

text \<open>
  Started with counter \<open>n\<close> on a device \<open>k\<close> contexts deep, the loop sends
  \<open>min k (n + 1)\<close> exit commands.
\<close>

lemma sim_exit_config_loop:
  "- 1 \<le> n \<Longrightarrow>
   \<exists>out'. exit_config_loop sim_connection ''exit'' p n out self =
      Inr (out', sim_after (min (sim_depth (remote self)) (nat (n + 1))) self)"
proof (induction "nat (n + 1)" arbitrary: n out self)
  case 0
  then have "n = - 1" by simp
  then show ?case
    by (simp add: exit_config_loop.simps [of _ _ _ "- 1"] sim_after_0)
next
  case (Suc m)
  then have n: "0 \<le> n" "m = nat (n - 1 + 1)" "- 1 \<le> n - 1" by auto
  show ?case
  proof (cases "sim_depth (remote self) > 0")
    case False
    then show ?thesis using n
      by (simp add: exit_config_loop.simps [of _ _ _ n] sim_check_config_mode sim_after_0)
  next
    case True
    obtain o1 where r: "base_read_until_pattern sim_connection p (sim_after (Suc 0) self) = Inr (o1, sim_after (Suc 0) self)"
      using sim_read by blast
    obtain out' where
      "exit_config_loop sim_connection ''exit'' p (n - 1) (out @ o1) (sim_after (Suc 0) self) =
        Inr (out', sim_after (min (sim_depth (remote (sim_after (Suc 0) self))) (nat (n - 1 + 1))) (sim_after (Suc 0) self))"
      using Suc.hyps(1) [OF n(2) n(3)] by blast
    moreover have "min (sim_depth (remote self)) (nat (n + 1)) =
        Suc (min (sim_depth (remote (sim_after (Suc 0) self))) (nat (n - 1 + 1)))"
      using True n by (auto simp: sim_after_def min_def)
    ultimately show ?thesis using True n r
      by (simp add: exit_config_loop.simps [of _ _ _ n] sim_check_config_mode sim_exit_step
          sim_after_Suc)
  qed
qed

text \<open>
  The device leaves configuration mode when it needs at most 13 exits, and the call
  raises when it needs 14 or more.
\<close>

lemma sim_exit_config_mode_ok:
  assumes "sim_depth (remote self) \<le> 13"
  shows "\<exists>out. MellanoxMlnxosSSH_exit_config_mode sim_connection ''exit'' p self =
           Inr (out, sim_after (sim_depth (remote self)) self)"
proof -
  obtain out' where
    "exit_config_loop sim_connection ''exit'' p 12 '''' self =
       Inr (out', sim_after (min (sim_depth (remote self)) (nat (12 + 1))) self)"
    using sim_exit_config_loop [of 12 p "[]" self] by auto
  moreover have "min (sim_depth (remote self)) (nat (12 + 1)) = sim_depth (remote self)"
    using assms by simp
  ultimately show ?thesis
    by (simp add: MellanoxMlnxosSSH_exit_config_mode_def sim_check_config_mode sim_after_def)
qed

lemma sim_exit_config_mode_fail:
  assumes "sim_depth (remote self) > 13"
  shows "MellanoxMlnxosSSH_exit_config_mode sim_connection ''exit'' p self =
           Inl (ValueError ''Failed to exit configuration mode'')"
proof -
  obtain out' where
    "exit_config_loop sim_connection ''exit'' p 12 '''' self =
       Inr (out', sim_after (min (sim_depth (remote self)) (nat (12 + 1))) self)"
    using sim_exit_config_loop [of 12 p "[]" self] by auto
  moreover have "min (sim_depth (remote self)) (nat (12 + 1)) = 13"
    using assms by simp
  ultimately show ?thesis using assms
    by (simp add: MellanoxMlnxosSSH_exit_config_mode_def sim_check_config_mode sim_after_def)
qed

text \<open>
  C6. enable: when check_enable_mode already holds, enable returns the empty string and the
  session is the one the check left (enable itself writes nothing). Otherwise it writes
  the normalised transition command, reads until the prompt or the pattern, checks again,
  and raises ValueError "Failed to enter enable mode." when the second check does not
  hold; when it holds, the text read is returned.
\<close>

theorem MellanoxMlnxosSSH_enable_behaviour:
  "(base_check_enable_mode b self = Inr (True, s1) \<longrightarrow>
      MellanoxMlnxosSSH_enable b cmd pattern re_flags self = Inr ('''', s1))
   \<and> (base_check_enable_mode b self = Inr (False, s1)
        \<and> base_write_channel b (base_normalize_cmd b cmd) s1 = Inr ((), s2)
        \<and> base_read_until_prompt_or_pattern b pattern re_flags s2 = Inr (out, s3)
        \<and> base_check_enable_mode b s3 = Inr (enabled, s4) \<longrightarrow>
      MellanoxMlnxosSSH_enable b cmd pattern re_flags self =
        (if enabled then Inr (out, s4) else Inl (ValueError ''Failed to enter enable mode.'')))"
  by (simp add: MellanoxMlnxosSSH_enable_def)

theorem MellanoxMlnxosSSH_enable_behaviour_witness:
  "base_check_enable_mode sim_connection (sim_session 0) = Inr (True, sim_session 0)
   \<and> MellanoxMlnxosSSH_enable sim_connection ''enable'' ''#'' 2 (sim_session 0) =
       Inr ('''', sim_session 0)
   \<and> sim_sent (remote (sim_session 0)) = []
   \<and> base_check_enable_mode sim_connection (sim_unprivileged False) =
       Inr (False, sim_unprivileged False)
   \<and> base_write_channel sim_connection (base_normalize_cmd sim_connection ''enable'')
         (sim_unprivileged False) =
       Inr ((), (sim_unprivileged False)
          \<lparr>remote := (remote (sim_unprivileged False))\<lparr>sim_sent := [''enable'' @ [CHR 0x0A]]\<rparr>\<rparr>)
   \<and> MellanoxMlnxosSSH_enable sim_connection ''enable'' ''#'' 2 (sim_unprivileged False) =
       Inl (ValueError ''Failed to enter enable mode.'')
   \<and> MellanoxMlnxosSSH_enable sim_connection ''enable'' ''#'' 2 (sim_unprivileged True) =
       Inr (''switch # '', (sim_unprivileged True)
          \<lparr>remote := (remote (sim_unprivileged True))
             \<lparr>sim_enabled := True, sim_sent := [''enable'' @ [CHR 0x0A]]\<rparr>\<rparr>)"
proof -
  let ?s1 = "(sim_unprivileged False)
          \<lparr>remote := (remote (sim_unprivileged False))\<lparr>sim_sent := [''enable'' @ [CHR 0x0A]]\<rparr>\<rparr>"
  let ?t1 = "(sim_unprivileged True)
          \<lparr>remote := (remote (sim_unprivileged True))
             \<lparr>sim_enabled := True, sim_sent := [''enable'' @ [CHR 0x0A]]\<rparr>\<rparr>"
  have a: "base_check_enable_mode sim_connection (sim_session 0) = Inr (True, sim_session 0)"
    by (simp add: sim_connection_def sim_session_def sim_prompt_def)
  have b: "base_check_enable_mode sim_connection (sim_unprivileged False) =
       Inr (False, sim_unprivileged False)"
    by (simp add: sim_connection_def sim_unprivileged_def sim_prompt_def)
  have c: "base_write_channel sim_connection (base_normalize_cmd sim_connection ''enable'')
         (sim_unprivileged False) = Inr ((), ?s1)"
    by (simp add: sim_connection_def sim_unprivileged_def sim_react_def)
  have d: "base_read_until_prompt_or_pattern sim_connection ''#'' 2 ?s1 = Inr (''switch > '', ?s1)"
    by (simp add: sim_connection_def sim_unprivileged_def sim_prompt_def)
  have e: "base_check_enable_mode sim_connection ?s1 = Inr (False, ?s1)"
    by (simp add: sim_connection_def sim_unprivileged_def sim_prompt_def)
  have b': "base_check_enable_mode sim_connection (sim_unprivileged True) =
       Inr (False, sim_unprivileged True)"
    by (simp add: sim_connection_def sim_unprivileged_def sim_prompt_def)
  have c': "base_write_channel sim_connection (base_normalize_cmd sim_connection ''enable'')
         (sim_unprivileged True) = Inr ((), ?t1)"
    by (simp add: sim_connection_def sim_unprivileged_def sim_react_def)
  have d': "base_read_until_prompt_or_pattern sim_connection ''#'' 2 ?t1 = Inr (''switch # '', ?t1)"
    by (simp add: sim_connection_def sim_unprivileged_def sim_prompt_def)
  have e': "base_check_enable_mode sim_connection ?t1 = Inr (True, ?t1)"
    by (simp add: sim_connection_def sim_unprivileged_def sim_prompt_def)
  have "sim_sent (remote (sim_session 0)) = []"
    by (simp add: sim_session_def)
  then show ?thesis
    using a b c
      MellanoxMlnxosSSH_enable_behaviour
        [of sim_connection "sim_session 0" "sim_session 0" "''enable''" "''#''" 2]
      MellanoxMlnxosSSH_enable_behaviour
        [of sim_connection "sim_unprivileged False" "sim_unprivileged False" "''enable''"
            "''#''" 2 ?s1 "''switch > ''" ?s1 False ?s1]
      MellanoxMlnxosSSH_enable_behaviour
        [of sim_connection "sim_unprivileged True" "sim_unprivileged True" "''enable''"
            "''#''" 2 ?t1 "''switch # ''" ?t1 True ?t1]
      b c d e b' c' d' e'
    by simp
qed

text \<open>
  C2. The exit loop is bounded, but not by 12: the counter starts at 12 and the loop still
  runs at 0, so up to 13 exit commands are sent. A device 13 configuration contexts deep
  receives 13 exit commands and the call returns normally, out of configuration mode.
\<close>

theorem exit_config_mode_sends_thirteen:
  "map_sum id snd (MellanoxMlnxosSSH_exit_config_mode sim_connection ''exit'' ''#'' (sim_session 13)) =
     Inr \<lparr>global_cmd_verify = None,
          remote = \<lparr>sim_depth = 0, sim_enabled = True, sim_accepts_enable = True,
                    sim_sent = replicate 13 (''exit'' @ [CHR 0x0A])\<rparr>\<rparr>"
  by code_simp

text \<open>
  C7. A device that needs exactly 13 exits, one more than the ceiling of 12, does not make
  exit_config_mode raise; the first depth at which it raises is 14.
\<close>

theorem exit_config_mode_depth_13_no_error:
  "MellanoxMlnxosSSH_exit_config_mode sim_connection ''exit'' ''#'' (sim_session 13) \<noteq>
     Inl (ValueError ''Failed to exit configuration mode'')
   \<and> MellanoxMlnxosSSH_exit_config_mode sim_connection ''exit'' ''#'' (sim_session 14) =
     Inl (ValueError ''Failed to exit configuration mode'')"
proof -
  have "sim_depth (remote (sim_session 13)) \<le> 13" "sim_depth (remote (sim_session 14)) > 13"
    by (simp_all add: sim_session_def)
  then show ?thesis
    using sim_exit_config_mode_ok [of "sim_session 13" "''#''"]
      sim_exit_config_mode_fail [of "sim_session 14" "''#''"]
    by auto
qed

section \<open>Properties of the structured-data functions\<close>










section \<open>Properties of strip_ansi_escape_codes\<close>

subsection \<open>The matcher enumerates the language of a pattern\<close>

declare re_sub.simps [simp del]




subsection \<open>One substitution on a segmented text\<close>


















subsection \<open>The whole function\<close>






lemma re_search_None_sub: "re_search p s = None \<Longrightarrow> re_sub p repl s = s"
proof (induction s)
  case Nil
  then have "re_match p [] = None" by simp
  then show ?case by (subst re_sub.simps) simp
next
  case (Cons c cs)
  then have "re_match p (c # cs) = None" "re_search p cs = None"
    by (auto split: option.splits)
  then show ?case using Cons.IH by (subst re_sub.simps) simp
qed


lemma strip_codes_id: "\<forall>p \<in> set codes. re_search p s = None \<Longrightarrow> strip_codes codes s = s"
  by (induction codes) (simp_all add: strip_codes_def re_search_None_sub)

lemma control_free_strip:
  assumes "control_free t"
  shows "strip_ansi_escape_codes t return_str = t"
proof -
  have a: "\<forall>p \<in> set code_set. re_search p t = None" "re_search code_next_line t = None"
    "re_search code_insert_line t = None"
    using assms by (simp_all add: control_free_def catalogue_def list_all_iff)
  have "strip_codes code_set t = t" using a(1) by (rule strip_codes_id)
  then show ?thesis using a(2,3)
    by (simp add: strip_ansi_escape_codes_def re_search_None_sub)
qed

lemma normalize_newlines_id: "CR \<notin> set t \<Longrightarrow> normalize_newlines t = t"
  by (induction t rule: normalize_newlines.induct) auto















subsection \<open>The result on a segmented text\<close>




















text \<open>
  C9, as the code has it. A text in which no pattern of the catalogue matches is returned
  unchanged; strip_ansi_escape_codes does not touch line terminators, so the result is
  the text with normalised newlines only when the text has no carriage return.
\<close>

theorem strip_ansi_clean_text:
  "control_free t \<Longrightarrow>
   strip_ansi_escape_codes t [LF] = t
   \<and> (CR \<notin> set t \<longrightarrow> strip_ansi_escape_codes t [LF] = normalize_newlines t)"
  by (simp add: control_free_strip normalize_newlines_id)

theorem strip_ansi_clean_text_witness:
  "control_free (''Vlan1 is up'' @ [LF])
   \<and> CR \<notin> set (''Vlan1 is up'' @ [LF])
   \<and> strip_ansi_escape_codes (''Vlan1 is up'' @ [LF]) [LF] = ''Vlan1 is up'' @ [LF]
   \<and> strip_ansi_escape_codes (''Vlan1 is up'' @ [LF]) [LF] =
       normalize_newlines (''Vlan1 is up'' @ [LF])"
proof -
  have a: "control_free (''Vlan1 is up'' @ [LF])"
    by code_simp
  have b: "CR \<notin> set (''Vlan1 is up'' @ [LF])"
    by (simp add: CR_def LF_def)
  have c: "strip_ansi_escape_codes (''Vlan1 is up'' @ [LF]) [LF] = ''Vlan1 is up'' @ [LF]
    \<and> (CR \<notin> set (''Vlan1 is up'' @ [LF]) \<longrightarrow>
         strip_ansi_escape_codes (''Vlan1 is up'' @ [LF]) [LF] =
           normalize_newlines (''Vlan1 is up'' @ [LF]))"
    using strip_ansi_clean_text [OF a] .
  show ?thesis
    using a b c by blast
qed

text \<open>
  The claim as stated fails on a text with a carriage return: it has no control sequence,
  the function returns it as it is, and normalising its newlines changes it.
\<close>

theorem strip_ansi_keeps_carriage_return:
  "control_free (''up'' @ [CR, LF] @ ''down'')
   \<and> strip_ansi_escape_codes (''up'' @ [CR, LF] @ ''down'') [LF] = ''up'' @ [CR, LF] @ ''down''
   \<and> normalize_newlines (''up'' @ [CR, LF] @ ''down'') = ''up'' @ [LF] @ ''down''
   \<and> strip_ansi_escape_codes (''up'' @ [CR, LF] @ ''down'') [LF] \<noteq>
       normalize_newlines (''up'' @ [CR, LF] @ ''down'')"
  by code_simp

text \<open>
  C4. The count of newlines is read once, from the first insert-line sequence, and used
  for every insert-line sequence of the text. In \<open>ESC[1L x ESC[3L y\<close> the second
  sequence carries 3 and is replaced by one newline, although alone it gives three.
\<close>

theorem strip_ansi_insert_line_first_count:
  "strip_ansi_escape_codes ([ESC] @ ''[1Lx'' @ [ESC] @ ''[3Ly'') [LF] = [LF] @ ''x'' @ [LF] @ ''y''
   \<and> strip_ansi_escape_codes ([ESC] @ ''[3Ly'') [LF] = [LF, LF, LF] @ ''y''"
  by code_simp




text \<open>
  Outside such texts idempotence can fail: with a stray escape character in front,
  deleting a cursor-left sequence leaves an erase-line sequence that only a second
  run deletes.
\<close>

lemma strip_ansi_stray_escape:
  "strip_ansi_escape_codes ([ESC] @ ''['' @ [ESC] @ ''[1D2K'') [LF] = [ESC] @ ''[2K''
   \<and> strip_ansi_escape_codes ([ESC] @ ''[2K'') [LF] = []"
  by code_simp

end
